theory Spec2Isabelle
  imports Complex_Main
begin

section \<open>Data model\<close>

text \<open>
  A telemetry snapshot is the dictionary that \<^verbatim>\<open>collect_ev_data\<close> builds. It has
  seven keys. Its numbers are read as the numbers they denote: an \<^verbatim>\<open>int\<close> is an
  \<^typ>\<open>int\<close>, a finite \<^verbatim>\<open>float\<close> is a \<^typ>\<open>real\<close>. The float fields take part
  in no arithmetic; comparisons against the integer literals 20 and 70 are exact on both.
\<close>

text \<open>
  The vehicle identifier is only ever interpolated into an f-string or listed. The source
  passes integers (\<^verbatim>\<open>collect_ev_data(101)\<close>); a string token is rendered as itself.
\<close>

datatype ident = IdInt int | IdStr string

datatype charge_status = Charging | Discharging

record location =
  lat :: real
  long :: real

record ev_data =
  ev_id :: ident
  battery_level :: int
  location :: location
  speed :: real
  temperature :: real
  charge_status :: charge_status
  timestamp :: real

subsection \<open>Rendering an identifier, as an f-string does\<close>

definition digit_char :: "nat \<Rightarrow> char" where
  "digit_char d = ''0123456789'' ! d"

fun str_nat :: "nat \<Rightarrow> string" where
  "str_nat n = (if n < 10 then [digit_char n] else str_nat (n div 10) @ [digit_char (n mod 10)])"

declare str_nat.simps [simp del]

definition str_int :: "int \<Rightarrow> string" where
  "str_int i = (if i < 0 then CHR ''-'' # str_nat (nat (- i)) else str_nat (nat i))"

fun str_id :: "ident \<Rightarrow> string" where
  "str_id (IdInt i) = str_int i"
| "str_id (IdStr s) = s"

section \<open>Operational decision making\<close>

text \<open>
  \<^verbatim>\<open>make_operational_decisions\<close> prints one line and returns nothing. The model returns
  the lines written to standard output.
\<close>

definition make_operational_decisions :: "ev_data \<Rightarrow> string list" where
  "make_operational_decisions ev =
     (if battery_level ev < 20 then
        [''EV '' @ str_id (ev_id ev) @ '' needs charging. Routing to nearest station.'']
      else if speed ev > 70 then
        [''EV '' @ str_id (ev_id ev) @ '' is speeding. Reduce speed to conserve battery.'']
      else
        [''EV '' @ str_id (ev_id ev) @ '' is operating normally.''])"

text \<open>
  The three recommendations of the decision engine, and the line that announces each one
  for a given vehicle. A snapshot is given a recommendation when the function prints
  exactly that recommendation's line for the snapshot's vehicle.
\<close>

datatype recommendation = route_to_charging | reduce_speed | normal_operation

fun announcement :: "ident \<Rightarrow> recommendation \<Rightarrow> string" where
  "announcement v route_to_charging =
     ''EV '' @ str_id v @ '' needs charging. Routing to nearest station.''"
| "announcement v reduce_speed =
     ''EV '' @ str_id v @ '' is speeding. Reduce speed to conserve battery.''"
| "announcement v normal_operation =
     ''EV '' @ str_id v @ '' is operating normally.''"

definition recommends :: "ev_data \<Rightarrow> recommendation \<Rightarrow> bool" where
  "recommends ev r = (make_operational_decisions ev = [announcement (ev_id ev) r])"

section \<open>Automation and remote control\<close>

text \<open>
  The dictionary \<^verbatim>\<open>actions\<close> is built afresh on every call, with the vehicle identifier
  interpolated into each of its three values; \<^verbatim>\<open>actions.get(action, "Invalid action")\<close>
  looks the action up and falls back to the default. Nothing here raises, so the result
  is a plain string.
\<close>

definition actions :: "ident \<Rightarrow> string \<rightharpoonup> string" where
  "actions v =
     [''start_charging'' \<mapsto> ''EV '' @ str_id v @ '' started charging.'',
      ''stop_charging'' \<mapsto> ''EV '' @ str_id v @ '' stopped charging.'',
      ''reduce_speed'' \<mapsto> ''EV '' @ str_id v @ '' speed reduced.'']"

definition remote_control :: "ident \<Rightarrow> string \<Rightarrow> string" where
  "remote_control v action =
     (case actions v action of Some description \<Rightarrow> description | None \<Rightarrow> ''Invalid action'')"


section \<open>Errors\<close>

text \<open>
  The exceptions that the modelled code can raise: a missing column of a data frame,
  Python's division by zero, and the overflow of a conversion of an integer to a float or
  of a division of integers.
\<close>

datatype error = KeyError string | ZeroDivisionError | OverflowError

section \<open>Floating-point numbers\<close>

text \<open>
  A Python float, like a float64 of numpy, is a binary64 number, an infinity or NaN.
  \<open>Finite x\<close> stands for the float whose value is \<open>x\<close>; the two zeros, which compare
  equal, are one value. Only some reals are binary64 numbers, and every arithmetic
  operation returns its exact result rounded to the nearest of them, ties going to the even
  significand. For \<open>2 powi e \<le> \<bar>x\<bar> < 2 powi (e + 1)\<close> the binary64 numbers around \<open>x\<close>
  are the multiples of \<open>2 powi (e - 52)\<close>; below the normal range the spacing stays
  \<open>2 powi (- 1074)\<close>; a rounded result of magnitude \<open>2 powi 1024\<close> or more is an
  infinity.
\<close>

datatype pyfloat = Finite real | PosInf | NegInf | NaN

definition round_half_even :: "real \<Rightarrow> int" where
  "round_half_even x =
     (let n = \<lfloor>x\<rfloor>; d = x - of_int n
      in if d < 1 / 2 then n else if d > 1 / 2 then n + 1 else if even n then n else n + 1)"

definition binade :: "real \<Rightarrow> int" where
  "binade x = \<lfloor>log 2 \<bar>x\<bar>\<rfloor>"

definition round64 :: "real \<Rightarrow> pyfloat" where
  "round64 x =
     (if x = 0 then Finite 0
      else let u = 2 powi (max (binade x) (- 1022) - 52);
               y = of_int (round_half_even (x / u)) * u
           in if 2 powi 1024 \<le> \<bar>y\<bar> then (if 0 < x then PosInf else NegInf) else Finite y)"

text \<open>
  The four operations. An infinity minus itself, zero times an infinity and an infinity
  over an infinity are NaN, and NaN propagates. \<open>fdiv\<close> is for a nonzero divisor: both
  Python and the mean of a non-empty column only divide by one.
\<close>

fun fadd :: "pyfloat \<Rightarrow> pyfloat \<Rightarrow> pyfloat" where
  "fadd (Finite x) (Finite y) = round64 (x + y)"
| "fadd NaN y = NaN"
| "fadd x NaN = NaN"
| "fadd PosInf NegInf = NaN"
| "fadd NegInf PosInf = NaN"
| "fadd PosInf y = PosInf"
| "fadd NegInf y = NegInf"
| "fadd x PosInf = PosInf"
| "fadd x NegInf = NegInf"

fun fsub :: "pyfloat \<Rightarrow> pyfloat \<Rightarrow> pyfloat" where
  "fsub (Finite x) (Finite y) = round64 (x - y)"
| "fsub NaN y = NaN"
| "fsub x NaN = NaN"
| "fsub PosInf PosInf = NaN"
| "fsub NegInf NegInf = NaN"
| "fsub PosInf y = PosInf"
| "fsub NegInf y = NegInf"
| "fsub x PosInf = NegInf"
| "fsub x NegInf = PosInf"

definition inf_signed :: "bool \<Rightarrow> real \<Rightarrow> pyfloat" where
  "inf_signed positive y =
     (if y = 0 then NaN else if (0 < y) = positive then PosInf else NegInf)"

fun fmul :: "pyfloat \<Rightarrow> pyfloat \<Rightarrow> pyfloat" where
  "fmul (Finite x) (Finite y) = round64 (x * y)"
| "fmul NaN y = NaN"
| "fmul x NaN = NaN"
| "fmul PosInf (Finite y) = inf_signed True y"
| "fmul NegInf (Finite y) = inf_signed False y"
| "fmul (Finite x) PosInf = inf_signed True x"
| "fmul (Finite x) NegInf = inf_signed False x"
| "fmul PosInf PosInf = PosInf"
| "fmul NegInf NegInf = PosInf"
| "fmul PosInf NegInf = NegInf"
| "fmul NegInf PosInf = NegInf"

fun fdiv :: "pyfloat \<Rightarrow> pyfloat \<Rightarrow> pyfloat" where
  "fdiv (Finite x) (Finite y) = round64 (x / y)"
| "fdiv NaN y = NaN"
| "fdiv x NaN = NaN"
| "fdiv PosInf (Finite y) = inf_signed True y"
| "fdiv NegInf (Finite y) = inf_signed False y"
| "fdiv (Finite x) PosInf = Finite 0"
| "fdiv (Finite x) NegInf = Finite 0"
| "fdiv PosInf PosInf = NaN"
| "fdiv NegInf NegInf = NaN"
| "fdiv PosInf NegInf = NaN"
| "fdiv NegInf PosInf = NaN"

section \<open>Python numbers and operators\<close>

text \<open>
  A number is an \<^verbatim>\<open>int\<close>, unbounded, or a \<^verbatim>\<open>float\<close>. Between two integers
  \<^verbatim>\<open>-\<close> and \<^verbatim>\<open>*\<close> are exact, and \<^verbatim>\<open>/\<close> is the exact quotient rounded once; it raises
  \<^verbatim>\<open>ZeroDivisionError\<close> on a zero divisor and \<^verbatim>\<open>OverflowError\<close> when the rounded
  quotient is beyond the largest float. When an operand is a float the other one is
  converted to a float first, left operand before right, which raises
  \<^verbatim>\<open>OverflowError\<close> for an integer beyond the largest float; then the float operation
  applies. Float division tests the divisor for zero after both conversions, and raises
  \<^verbatim>\<open>ZeroDivisionError\<close> there; float operations never raise otherwise, and overflow to an
  infinity.
\<close>

datatype pynum = PyInt int | PyFloat pyfloat

definition int_to_float :: "int \<Rightarrow> error + pyfloat" where
  "int_to_float n =
     (case round64 (of_int n) of Finite y \<Rightarrow> Inr (Finite y) | _ \<Rightarrow> Inl OverflowError)"

fun to_float :: "pynum \<Rightarrow> error + pyfloat" where
  "to_float (PyInt n) = int_to_float n"
| "to_float (PyFloat x) = Inr x"

definition with_floats ::
    "pynum \<Rightarrow> pynum \<Rightarrow> (pyfloat \<Rightarrow> pyfloat \<Rightarrow> error + pynum) \<Rightarrow> error + pynum" where
  "with_floats a b k =
     (case to_float a of
        Inl e \<Rightarrow> Inl e
      | Inr x \<Rightarrow> (case to_float b of Inl e \<Rightarrow> Inl e | Inr y \<Rightarrow> k x y))"

fun py_sub :: "pynum \<Rightarrow> pynum \<Rightarrow> error + pynum" where
  "py_sub (PyInt a) (PyInt b) = Inr (PyInt (a - b))"
| "py_sub a b = with_floats a b (\<lambda>x y. Inr (PyFloat (fsub x y)))"

fun py_mul :: "pynum \<Rightarrow> pynum \<Rightarrow> error + pynum" where
  "py_mul (PyInt a) (PyInt b) = Inr (PyInt (a * b))"
| "py_mul a b = with_floats a b (\<lambda>x y. Inr (PyFloat (fmul x y)))"

fun py_truediv :: "pynum \<Rightarrow> pynum \<Rightarrow> error + pynum" where
  "py_truediv (PyInt a) (PyInt b) =
     (if b = 0 then Inl ZeroDivisionError
      else (case round64 (of_int a / of_int b) of
              Finite q \<Rightarrow> Inr (PyFloat (Finite q))
            | _ \<Rightarrow> Inl OverflowError))"
| "py_truediv a b =
     with_floats a b
       (\<lambda>x y. if y = Finite 0 then Inl ZeroDivisionError else Inr (PyFloat (fdiv x y)))"

text \<open>
  A number is zero when it is the integer 0 or the float 0.0. \<open>ints_below B\<close> holds of
  every float, and of an integer of magnitude below \<open>B\<close>.
\<close>

fun is_zero :: "pynum \<Rightarrow> bool" where
  "is_zero (PyInt n) = (n = 0)"
| "is_zero (PyFloat x) = (x = Finite 0)"


section \<open>Continuous improvement\<close>

text \<open>
  \<^verbatim>\<open>continuous_improvement\<close> takes a pandas data frame. A frame either has the seven
  columns of the snapshots, with any number of rows, or it has no columns at all, which is
  what \<^verbatim>\<open>pd.DataFrame([])\<close> builds from an empty list of snapshots. Both are frames
  with no rows; a frame with the columns and no rows arises from slicing or filtering.
\<close>

datatype dataframe = NoColumns | Frame "ev_data list"

definition pd_DataFrame :: "ev_data list \<Rightarrow> dataframe" where
  "pd_DataFrame data = (if data = [] then NoColumns else Frame data)"

text \<open>\<^verbatim>\<open>df[name]\<close>: the column as a list, or \<^verbatim>\<open>KeyError\<close> when there is none.\<close>

fun getitem :: "dataframe \<Rightarrow> string \<Rightarrow> (ev_data \<Rightarrow> 'a) \<Rightarrow> error + 'a list" where
  "getitem NoColumns name field = Inl (KeyError name)"
| "getitem (Frame rs) name field = Inr (map field rs)"

text \<open>
  \<^verbatim>\<open>Series.mean()\<close> of a column of integers works in float64: each value is converted
  to a float and added to the running sum, every addition rounded, and the sum is divided
  by the count, rounded again. The mean of a column of no values is NaN. For a long
  column numpy adds in another order; the order is immaterial when the absolute values add
  up to at most \<open>2 ^ 53\<close>, since then every partial sum is exact. The statements about the
  average below are for such columns.
\<close>

definition series_sum :: "int list \<Rightarrow> pyfloat" where
  "series_sum xs = fold (\<lambda>x acc. fadd acc (round64 (of_int x))) xs (Finite 0)"

definition series_mean :: "int list \<Rightarrow> pyfloat" where
  "series_mean xs =
     (if length xs = 0 then NaN else fdiv (series_sum xs) (round64 (of_nat (length xs))))"

text \<open>\<^verbatim>\<open>series < c\<close>: the boolean mask, one entry per row.\<close>

definition series_lt :: "int list \<Rightarrow> int \<Rightarrow> bool list" where
  "series_lt xs c = map (\<lambda>x. x < c) xs"

text \<open>\<^verbatim>\<open>df[mask]\<close>: the rows whose mask entry is true, in their order.\<close>

fun getitem_mask :: "dataframe \<Rightarrow> bool list \<Rightarrow> dataframe" where
  "getitem_mask NoColumns flags = NoColumns"
| "getitem_mask (Frame rs) flags = Frame (map fst (filter snd (zip rs flags)))"

fun len :: "dataframe \<Rightarrow> nat" where
  "len NoColumns = 0"
| "len (Frame rs) = length rs"

text \<open>
  The function prints two or three lines and returns nothing. The model returns what the
  lines show: the average, the list of identifiers, and the suggestion line when it is
  printed. Only the first column lookup can fail, so an exception ends the call before
  anything is printed.
\<close>

record fleet_report =
  printed_average :: pyfloat
  printed_low_battery :: "ident list"
  printed_suggestion :: "string option"

definition continuous_improvement :: "dataframe \<Rightarrow> error + fleet_report" where
  "continuous_improvement df =
     (case getitem df ''battery_level'' battery_level of
        Inl e \<Rightarrow> Inl e
      | Inr levels \<Rightarrow>
          let avg_battery = series_mean levels
          in (case getitem df ''battery_level'' battery_level of
                Inl e \<Rightarrow> Inl e
              | Inr levels' \<Rightarrow>
                  let low_battery_ev = getitem_mask df (series_lt levels' 20)
                  in (case getitem low_battery_ev ''ev_id'' ev_id of
                        Inl e \<Rightarrow> Inl e
                      | Inr ids \<Rightarrow>
                          Inr \<lparr>printed_average = avg_battery,
                               printed_low_battery = ids,
                               printed_suggestion =
                                 (if len low_battery_ev > 0
                                  then Some ''Suggestion: Increase charging frequency for low battery EVs.''
                                  else None)\<rparr>)))"

section \<open>Cost management and return on investment\<close>

text \<open>
  \<^verbatim>\<open>calculate_roi\<close> is two subtractions, a true division and a multiplication by the
  integer 100, each with Python's operator on whatever numbers the caller passes; the
  source's own call passes four integers. The first exception raised ends the call.
\<close>

definition calculate_roi :: "pynum \<Rightarrow> pynum \<Rightarrow> pynum \<Rightarrow> pynum \<Rightarrow> error + pynum" where
  "calculate_roi initial_investment maintenance_costs fuel_savings charging_costs =
     (case py_sub fuel_savings charging_costs of
        Inl e \<Rightarrow> Inl e
      | Inr savings \<Rightarrow>
          (case py_sub savings maintenance_costs of
             Inl e \<Rightarrow> Inl e
           | Inr net_profit \<Rightarrow>
               (case py_truediv net_profit initial_investment of
                  Inl e \<Rightarrow> Inl e
                | Inr ratio \<Rightarrow> py_mul ratio (PyInt 100))))"

subsection \<open>Sample snapshots\<close>

text \<open>
  \<open>snapshot n b s\<close> is a reading of vehicle \<open>n\<close> with battery level \<open>b\<close> and speed \<open>s\<close>;
  \<open>other_snapshot\<close> differs from \<open>snapshot 101 10 80\<close> in every field except those two.
\<close>

definition snapshot :: "int \<Rightarrow> int \<Rightarrow> real \<Rightarrow> ev_data" where
  "snapshot n b s =
     \<lparr>ev_id = IdInt n, battery_level = b, location = \<lparr>lat = 35, long = -117\<rparr>,
      speed = s, temperature = 20, charge_status = Discharging, timestamp = 0\<rparr>"

definition other_snapshot :: ev_data where
  "other_snapshot =
     \<lparr>ev_id = IdStr ''truck-7'', battery_level = 10, location = \<lparr>lat = 34, long = -118\<rparr>,
      speed = 80, temperature = 29, charge_status = Charging, timestamp = 1700000000\<rparr>"

section \<open>Rendering\<close>

lemma str_int_101: "str_int 101 = ''101''"
  by (simp add: str_int_def str_nat.simps digit_char_def)

section \<open>Properties of the decision engine\<close>

lemma announcement_inject: "announcement v r = announcement v r' \<longleftrightarrow> r = r'"
  by (cases r; cases r') simp_all

lemma recommends_iff:
  "recommends ev r \<longleftrightarrow>
     r = (if battery_level ev < 20 then route_to_charging
          else if speed ev > 70 then reduce_speed else normal_operation)"
proof -
  let ?d = "if battery_level ev < 20 then route_to_charging
            else if speed ev > 70 then reduce_speed else normal_operation"
  have "make_operational_decisions ev = [announcement (ev_id ev) ?d]"
    by (simp add: make_operational_decisions_def)
  then have "recommends ev r \<longleftrightarrow> announcement (ev_id ev) ?d = announcement (ev_id ev) r"
    by (simp add: recommends_def)
  then show ?thesis
    by (simp only: announcement_inject) blast
qed

lemma make_operational_decisions_101:
  "make_operational_decisions (snapshot 101 19 0) =
     [''EV 101 needs charging. Routing to nearest station.'']"
  "make_operational_decisions (snapshot 101 100 71) =
     [''EV 101 is speeding. Reduce speed to conserve battery.'']"
  "make_operational_decisions (snapshot 101 20 70) = [''EV 101 is operating normally.'']"
  by (simp_all add: make_operational_decisions_def snapshot_def str_int_101)

text \<open>
  C3: every snapshot gets exactly one of the three recommendations, in priority order:
  a battery level below 20 gives \<open>route_to_charging\<close> whatever the speed; otherwise a
  speed above 70 gives \<open>reduce_speed\<close>; otherwise \<open>normal_operation\<close>.
\<close>

theorem decision_priority_order:
  "(\<exists>!r. recommends ev r) \<and>
   (battery_level ev < 20 \<longrightarrow> recommends ev route_to_charging) \<and>
   (\<not> battery_level ev < 20 \<and> speed ev > 70 \<longrightarrow> recommends ev reduce_speed) \<and>
   (\<not> battery_level ev < 20 \<and> \<not> speed ev > 70 \<longrightarrow> recommends ev normal_operation)"
  by (simp add: recommends_iff)

theorem decision_priority_order_witness:
  "battery_level (snapshot 101 10 80) < 20 \<and> recommends (snapshot 101 10 80) route_to_charging \<and>
   \<not> battery_level (snapshot 102 50 80) < 20 \<and> speed (snapshot 102 50 80) > 70 \<and>
     recommends (snapshot 102 50 80) reduce_speed \<and>
   \<not> battery_level (snapshot 103 50 60) < 20 \<and> \<not> speed (snapshot 103 50 60) > 70 \<and>
     recommends (snapshot 103 50 60) normal_operation"
  using decision_priority_order [of "snapshot 101 10 80"]
    decision_priority_order [of "snapshot 102 50 80"]
    decision_priority_order [of "snapshot 103 50 60"]
  by (simp add: snapshot_def)

text \<open>
  C4: both thresholds are strict. Whatever the other fields are, battery level 20 at
  speed 0 is normal operation and battery level 19 is routed to charging; at battery
  level 100, speed 70 is normal operation and speed 71 is told to reduce speed.
\<close>

theorem decision_thresholds_strict:
  "recommends (ev\<lparr>battery_level := 20, speed := 0\<rparr>) normal_operation \<and>
   recommends (ev\<lparr>battery_level := 19, speed := 0\<rparr>) route_to_charging \<and>
   recommends (ev\<lparr>battery_level := 100, speed := 70\<rparr>) normal_operation \<and>
   recommends (ev\<lparr>battery_level := 100, speed := 71\<rparr>) reduce_speed"
  by (simp add: recommends_iff)

theorem decision_thresholds_strict_witness:
  "recommends (snapshot 101 20 0) normal_operation \<and>
   recommends (snapshot 101 19 0) route_to_charging \<and>
   recommends (snapshot 101 100 70) normal_operation \<and>
   recommends (snapshot 101 100 71) reduce_speed"
  using decision_thresholds_strict [of "snapshot 101 0 0"]
  by (simp add: snapshot_def)

text \<open>
  C10: the recommendation depends only on the battery level and the speed. Two snapshots
  that agree on both get the same recommendation, however they differ in vehicle
  identifier, location, temperature, charge status or timestamp.
\<close>

theorem decision_ignores_other_fields:
  "battery_level a = battery_level b \<Longrightarrow> speed a = speed b \<Longrightarrow>
   recommends a r \<longleftrightarrow> recommends b r"
  by (simp add: recommends_iff)

theorem decision_ignores_other_fields_witness:
  "battery_level (snapshot 101 10 80) = battery_level other_snapshot \<and>
   speed (snapshot 101 10 80) = speed other_snapshot \<and>
   ev_id (snapshot 101 10 80) \<noteq> ev_id other_snapshot \<and>
   location (snapshot 101 10 80) \<noteq> location other_snapshot \<and>
   temperature (snapshot 101 10 80) \<noteq> temperature other_snapshot \<and>
   charge_status (snapshot 101 10 80) \<noteq> charge_status other_snapshot \<and>
   timestamp (snapshot 101 10 80) \<noteq> timestamp other_snapshot \<and>
   (recommends (snapshot 101 10 80) route_to_charging \<longleftrightarrow>
    recommends other_snapshot route_to_charging)"
proof -
  have b: "battery_level (snapshot 101 10 80) = battery_level other_snapshot"
    by (simp add: snapshot_def other_snapshot_def)
  have s: "speed (snapshot 101 10 80) = speed other_snapshot"
    by (simp add: snapshot_def other_snapshot_def)
  from decision_ignores_other_fields [OF b s, of route_to_charging] b s
  show ?thesis by (simp add: snapshot_def other_snapshot_def)
qed

section \<open>Properties of the remote control dispatcher\<close>

lemma actions_cases:
  "actions v action =
     (if action = ''reduce_speed'' then Some (''EV '' @ str_id v @ '' speed reduced.'')
      else if action = ''stop_charging'' then Some (''EV '' @ str_id v @ '' stopped charging.'')
      else if action = ''start_charging'' then Some (''EV '' @ str_id v @ '' started charging.'')
      else None)"
  by (simp add: actions_def)

text \<open>
  C6: for each of the three recognised actions \<open>remote_control\<close> returns that action's
  template, which contains the rendered vehicle identifier and is not the sentinel; for
  every other action name it returns the sentinel \<open>''Invalid action''\<close>. The function is
  total: no call raises.
\<close>

theorem remote_control_dispatch:
  "remote_control v ''start_charging'' = ''EV '' @ str_id v @ '' started charging.'' \<and>
   remote_control v ''stop_charging'' = ''EV '' @ str_id v @ '' stopped charging.'' \<and>
   remote_control v ''reduce_speed'' = ''EV '' @ str_id v @ '' speed reduced.'' \<and>
   (action \<in> {''start_charging'', ''stop_charging'', ''reduce_speed''} \<longrightarrow>
      (\<exists>before after. remote_control v action = before @ str_id v @ after) \<and>
      remote_control v action \<noteq> ''Invalid action'') \<and>
   (action \<notin> {''start_charging'', ''stop_charging'', ''reduce_speed''} \<longrightarrow>
      remote_control v action = ''Invalid action'')"
proof -
  have 1: "remote_control v ''start_charging'' = ''EV '' @ str_id v @ '' started charging.''"
    by (simp add: remote_control_def actions_cases)
  have 2: "remote_control v ''stop_charging'' = ''EV '' @ str_id v @ '' stopped charging.''"
    by (simp add: remote_control_def actions_cases)
  have 3: "remote_control v ''reduce_speed'' = ''EV '' @ str_id v @ '' speed reduced.''"
    by (simp add: remote_control_def actions_cases)
  have 4: "\<exists>before after. remote_control v action = before @ str_id v @ after"
    and 5: "remote_control v action \<noteq> ''Invalid action''"
    if "action \<in> {''start_charging'', ''stop_charging'', ''reduce_speed''}"
  proof -
    from that 1 2 3 show "\<exists>before after. remote_control v action = before @ str_id v @ after"
      by blast
    from that 1 2 3 show "remote_control v action \<noteq> ''Invalid action''"
      by auto
  qed
  have 6: "remote_control v action = ''Invalid action''"
    if "action \<notin> {''start_charging'', ''stop_charging'', ''reduce_speed''}"
    using that by (simp add: remote_control_def actions_cases)
  from 1 2 3 4 5 6 show ?thesis by blast
qed

theorem remote_control_dispatch_witness:
  "''start_charging'' \<in> {''start_charging'', ''stop_charging'', ''reduce_speed''} \<and>
   remote_control (IdInt 101) ''start_charging'' = ''EV 101 started charging.'' \<and>
   ''fly'' \<notin> {''start_charging'', ''stop_charging'', ''reduce_speed''} \<and>
   remote_control (IdInt 101) ''fly'' = ''Invalid action''"
  using remote_control_dispatch [of "IdInt 101" "''fly''"]
    remote_control_dispatch [of "IdInt 101" "''start_charging''"]
  by (simp add: str_int_101)

section \<open>Properties of the rounding\<close>

lemma binade_bounds:
  assumes "x \<noteq> 0"
  shows "2 powi (binade x) \<le> \<bar>x\<bar>" and "\<bar>x\<bar> < 2 powi (binade x + 1)"
proof -
  have pos: "0 < \<bar>x\<bar>" using assms by simp
  have lo: "(2::real) powr real_of_int (binade x) = 2 powi (binade x)"
    by (rule powr_real_of_int') simp_all
  have hi: "(2::real) powr real_of_int (binade x + 1) = 2 powi (binade x + 1)"
    by (rule powr_real_of_int') simp_all
  have "real_of_int (binade x) \<le> log 2 \<bar>x\<bar>"
    unfolding binade_def by simp
  with pos have "2 powr real_of_int (binade x) \<le> \<bar>x\<bar>"
    by (simp add: le_log_iff)
  with lo show "2 powi (binade x) \<le> \<bar>x\<bar>" by simp
  have "log 2 \<bar>x\<bar> < real_of_int (binade x + 1)"
    unfolding binade_def by linarith
  with pos have "\<bar>x\<bar> < 2 powr real_of_int (binade x + 1)"
    by (simp add: log_less_iff)
  with hi show "\<bar>x\<bar> < 2 powi (binade x + 1)" by simp
qed

lemma binade_eqI:
  assumes a: "2 powi e \<le> \<bar>x\<bar>" and b: "\<bar>x\<bar> < 2 powi (e + 1)"
  shows "binade x = e"
proof -
  have nz: "x \<noteq> 0"
  proof
    assume "x = 0"
    with a have "2 powi e \<le> (0::real)" by simp
    moreover have "(0::real) < 2 powi e" by simp
    ultimately show False by linarith
  qed
  have "binade x < e + 1"
  proof (rule ccontr)
    assume "\<not> binade x < e + 1"
    then have "(2::real) powi (e + 1) \<le> 2 powi (binade x)"
      by (intro power_int_increasing) simp_all
    with binade_bounds(1) [OF nz] b show False by linarith
  qed
  moreover have "e < binade x + 1"
  proof (rule ccontr)
    assume "\<not> e < binade x + 1"
    then have "(2::real) powi (binade x + 1) \<le> 2 powi e"
      by (intro power_int_increasing) simp_all
    with binade_bounds(2) [OF nz] a show False by linarith
  qed
  ultimately show ?thesis by linarith
qed

lemma round_half_even_of_int: "round_half_even (of_int m) = m"
  by (simp add: round_half_even_def)

lemma round_half_even_ge_floor: "\<lfloor>z\<rfloor> \<le> round_half_even z"
  by (simp add: round_half_even_def Let_def)

lemma round_half_even_le_ceiling: "round_half_even z \<le> \<lceil>z\<rceil>"
proof (cases "z = of_int \<lfloor>z\<rfloor>")
  case True
  then have "round_half_even z = \<lfloor>z\<rfloor>"
    by (metis round_half_even_of_int)
  then show ?thesis by (simp add: floor_le_ceiling)
next
  case False
  then have "\<lceil>z\<rceil> = \<lfloor>z\<rfloor> + 1"
    by (simp add: ceiling_altdef)
  then show ?thesis
    by (simp add: round_half_even_def Let_def)
qed

lemma round_half_even_abs_le:
  assumes "\<bar>z\<bar> \<le> of_int B"
  shows "\<bar>round_half_even z\<bar> \<le> B"
proof -
  from assms have "of_int (- B) \<le> z" and "z \<le> of_int B" by simp_all
  then have "- B \<le> \<lfloor>z\<rfloor>" and "\<lceil>z\<rceil> \<le> B"
    by (simp_all add: le_floor_iff ceiling_le_iff)
  with round_half_even_ge_floor [of z] round_half_even_le_ceiling [of z] show ?thesis by linarith
qed



text \<open>The rounded value when the quantum is known and the result stays in range.\<close>

lemma round64_quantum:
  assumes nz: "x \<noteq> 0" and q: "max (binade x) (- 1022) = e" and e: "e \<le> 1022"
  shows "round64 x = Finite (of_int (round_half_even (x / 2 powi (e - 52))) * 2 powi (e - 52))"
proof -
  let ?u = "(2::real) powi (e - 52)"
  let ?m = "round_half_even (x / ?u)"
  have upos: "0 < ?u" by simp
  have "binade x + 1 \<le> e + 1" using q by linarith
  then have "(2::real) powi (binade x + 1) \<le> 2 powi (e + 1)"
    by (intro power_int_increasing) simp_all
  with binade_bounds(2) [OF nz] have xlt: "\<bar>x\<bar> < 2 powi (e + 1)" by linarith
  have split: "(2::real) powi (e + 1) = 2 ^ 53 * ?u"
  proof -
    have "e + 1 = 53 + (e - 52)" by simp
    then have "(2::real) powi (e + 1) = 2 powi (53 + (e - 52))" by (rule arg_cong)
    also have "\<dots> = 2 powi 53 * ?u" by (subst power_int_add) simp_all
    finally show ?thesis by simp
  qed
  have "\<bar>x / ?u\<bar> = \<bar>x\<bar> / ?u" using upos by simp
  also have "\<dots> < 2 ^ 53" using xlt upos by (simp add: split pos_divide_less_eq)
  finally have "\<bar>x / ?u\<bar> \<le> of_int (2 ^ 53)" by simp
  then have "\<bar>?m\<bar> \<le> 2 ^ 53" by (rule round_half_even_abs_le)
  then have "\<bar>real_of_int ?m\<bar> \<le> 2 ^ 53"
    by (metis of_int_abs of_int_le_iff of_int_numeral of_int_power)
  then have "\<bar>real_of_int ?m * ?u\<bar> \<le> 2 ^ 53 * ?u"
    using upos by (simp add: abs_mult)
  also have "\<dots> = 2 powi (e + 1)" by (simp add: split)
  also have "\<dots> \<le> 2 powi 1023" using e by (intro power_int_increasing) simp_all
  also have "\<dots> < (2::real) powi 1024" by (intro power_int_strict_increasing) simp_all
  finally have "\<not> 2 powi 1024 \<le> \<bar>real_of_int ?m * ?u\<bar>" by simp
  then show ?thesis
    using nz q by (simp add: round64_def Let_def)
qed

lemma round64_normal:
  assumes "2 powi e \<le> \<bar>x\<bar>" and "\<bar>x\<bar> < 2 powi (e + 1)" and "- 1022 \<le> e" and "e \<le> 1022"
  shows "round64 x = Finite (of_int (round_half_even (x / 2 powi (e - 52))) * 2 powi (e - 52))"
proof -
  have nz: "x \<noteq> 0"
  proof
    assume "x = 0"
    with assms(1) have "2 powi e \<le> (0::real)" by simp
    moreover have "(0::real) < 2 powi e" by simp
    ultimately show False by linarith
  qed
  have "binade x = e" using assms(1,2) by (rule binade_eqI)
  with assms(3) have "max (binade x) (- 1022) = e" by simp
  with nz show ?thesis using assms(4) by (rule round64_quantum)
qed



lemma round64_of_int:
  assumes "\<bar>k\<bar> \<le> 2 ^ 53"
  shows "round64 (of_int k) = Finite (of_int k)"
proof (cases "k = 0")
  case True
  then show ?thesis by (simp add: round64_def)
next
  case False
  let ?x = "real_of_int k"
  have nz: "?x \<noteq> 0" using False by simp
  let ?e = "binade ?x"
  have one: "1 \<le> \<bar>?x\<bar>" using False by (metis abs_ge_zero int_one_le_iff_zero_less of_int_1_le_iff of_int_abs zero_less_abs_iff)
  have top: "\<bar>?x\<bar> \<le> 2 ^ 53" using assms
    by (metis of_int_abs of_int_le_iff of_int_numeral of_int_power)
  have e0: "0 \<le> ?e"
  proof (rule ccontr)
    assume "\<not> 0 \<le> ?e"
    then have "(2::real) powi (?e + 1) \<le> 2 powi 0"
      by (intro power_int_increasing) simp_all
    with binade_bounds(2) [OF nz] one show False by simp
  qed
  have e53: "?e \<le> 53"
  proof (rule ccontr)
    assume "\<not> ?e \<le> 53"
    then have "(2::real) powi 54 \<le> 2 powi ?e"
      by (intro power_int_increasing) simp_all
    with binade_bounds(1) [OF nz] top show False by simp
  qed
  have q: "max ?e (- 1022) = ?e" using e0 by simp
  have r: "round64 ?x =
      Finite (of_int (round_half_even (?x / 2 powi (?e - 52))) * 2 powi (?e - 52))"
    using nz q by (rule round64_quantum) (use e53 in simp)
  show ?thesis
  proof (cases "?e = 53")
    case True
    with binade_bounds(1) [OF nz] top have "\<bar>?x\<bar> = 2 ^ 53" by simp
    then have "\<bar>k\<bar> = 2 ^ 53"
      by (metis of_int_abs of_int_eq_iff of_int_numeral of_int_power)
    then consider "k = 2 ^ 53" | "k = - (2 ^ 53)" by linarith
    then show ?thesis
    proof cases
      case 1
      have "round64 9007199254740992 = Finite 9007199254740992"
        by (subst round64_normal [of 53]) (simp_all add: round_half_even_def)
      with 1 show ?thesis by simp
    next
      case 2
      have "round64 (- 9007199254740992) = Finite (- 9007199254740992)"
        by (subst round64_normal [of 53]) (simp_all add: round_half_even_def)
      with 2 show ?thesis by simp
    qed
  next
    case False
    with e53 have le: "?e \<le> 52" by simp
    define t where "t = nat (52 - ?e)"
    have u: "(2::real) powi (?e - 52) = 1 / 2 ^ t"
      using le by (auto simp: t_def power_int_def power_one_over inverse_eq_divide)
    have "?x / 2 powi (?e - 52) = of_int (k * 2 ^ t)" by (simp add: u)
    then have "round_half_even (?x / 2 powi (?e - 52)) = k * 2 ^ t"
      by (simp only: round_half_even_of_int)
    then show ?thesis using r by (simp add: u)
  qed
qed



lemma round_half_even_error: "\<bar>real_of_int (round_half_even z) - z\<bar> \<le> 1 / 2"
proof -
  have "of_int \<lfloor>z\<rfloor> \<le> z" and "z < of_int \<lfloor>z\<rfloor> + 1" by linarith+
  then show ?thesis
    by (auto simp: round_half_even_def Let_def)
qed

lemma round64_error:
  assumes "2 powi (- 1022) \<le> \<bar>x\<bar>" and "\<bar>x\<bar> < 2 powi 1023"
  shows "\<exists>y. round64 x = Finite y \<and> \<bar>y - x\<bar> \<le> \<bar>x\<bar> / 2 ^ 53"
proof -
  have nz: "x \<noteq> 0"
  proof
    assume "x = 0"
    with assms(1) have "2 powi (- 1022) \<le> (0::real)" by simp
    moreover have "(0::real) < 2 powi (- 1022)" by simp
    ultimately show False by linarith
  qed
  let ?e = "binade x"
  let ?u = "(2::real) powi (?e - 52)"
  let ?z = "x / ?u"
  let ?y = "real_of_int (round_half_even ?z) * ?u"
  have upos: "0 < ?u" by simp
  have lo: "- 1022 \<le> ?e"
  proof (rule ccontr)
    assume "\<not> - 1022 \<le> ?e"
    then have "(2::real) powi (?e + 1) \<le> 2 powi (- 1022)"
      by (intro power_int_increasing) simp_all
    with binade_bounds(2) [OF nz] assms(1) show False by linarith
  qed
  have hi: "?e \<le> 1022"
  proof (rule ccontr)
    assume "\<not> ?e \<le> 1022"
    then have "(2::real) powi 1023 \<le> 2 powi ?e"
      by (intro power_int_increasing) simp_all
    with binade_bounds(1) [OF nz] assms(2) show False by linarith
  qed
  have q: "max ?e (- 1022) = ?e" using lo by simp
  have r: "round64 x = Finite ?y"
    using nz q hi by (rule round64_quantum)
  have split: "(2::real) powi ?e = 2 ^ 52 * ?u"
  proof -
    have "?e = 52 + (?e - 52)" by simp
    then have "(2::real) powi ?e = 2 powi (52 + (?e - 52))" by (rule arg_cong)
    also have "\<dots> = 2 powi 52 * ?u" by (subst power_int_add) simp_all
    finally show ?thesis by simp
  qed
  have "?y - x = (real_of_int (round_half_even ?z) - ?z) * ?u"
    using upos by (simp add: field_simps)
  then have "\<bar>?y - x\<bar> = \<bar>real_of_int (round_half_even ?z) - ?z\<bar> * ?u"
    using upos by (simp add: abs_mult)
  also have "\<dots> \<le> 1 / 2 * ?u"
    using round_half_even_error [of ?z] upos by (intro mult_right_mono) simp_all
  also have "\<dots> = 2 powi ?e / 2 ^ 53" by (simp add: split)
  also have "\<dots> \<le> \<bar>x\<bar> / 2 ^ 53"
    using binade_bounds(1) [OF nz] by (simp add: divide_right_mono)
  finally have "\<bar>?y - x\<bar> \<le> \<bar>x\<bar> / 2 ^ 53" .
  with r show ?thesis by blast
qed


section \<open>Properties of the Python operators\<close>




lemma to_float_error: "to_float a = Inl e \<Longrightarrow> e = OverflowError"
  by (cases a) (auto simp: int_to_float_def split: pyfloat.splits)

lemma with_floats_error:
  assumes "with_floats a b k = Inl e" and "\<And>x y. k x y = Inl e \<Longrightarrow> e = OverflowError"
  shows "e = OverflowError"
  using assms by (auto simp: with_floats_def split: sum.splits dest: to_float_error)

lemma py_sub_error: "py_sub a b = Inl e \<Longrightarrow> e = OverflowError"
  by (cases a; cases b) (auto dest: with_floats_error)



lemma to_float_is_zero: "is_zero b \<Longrightarrow> to_float b = Inr (Finite 0)"
  by (cases b) (auto simp: int_to_float_def round64_def)


lemma py_truediv_zero:
  assumes "is_zero b"
  shows "py_truediv a b = Inl ZeroDivisionError \<or> py_truediv a b = Inl OverflowError"
proof (cases "\<exists>m n. a = PyInt m \<and> b = PyInt n")
  case True
  then show ?thesis using assms by auto
next
  case False
  then have "py_truediv a b =
      with_floats a b (\<lambda>x y. if y = Finite 0 then Inl ZeroDivisionError else Inr (PyFloat (fdiv x y)))"
    by (cases a; cases b) simp_all
  with assms show ?thesis
    by (auto simp: with_floats_def to_float_is_zero split: sum.splits dest: to_float_error)
qed


lemma py_truediv_int_zero: "py_truediv (PyInt a) (PyInt 0) = Inl ZeroDivisionError"
  by simp


section \<open>Properties of the return on investment\<close>


lemma calculate_roi_zero_fails:
  assumes "is_zero i"
  shows "calculate_roi i m f c = Inl ZeroDivisionError \<or> calculate_roi i m f c = Inl OverflowError"
proof (cases "py_sub f c")
  case (Inl e)
  then show ?thesis by (auto simp: calculate_roi_def dest: py_sub_error)
next
  case s: (Inr savings)
  show ?thesis
  proof (cases "py_sub savings m")
    case (Inl e)
    with s show ?thesis by (auto simp: calculate_roi_def dest: py_sub_error)
  next
    case (Inr net_profit)
    with s py_truediv_zero [OF assms, of net_profit] show ?thesis
      by (auto simp: calculate_roi_def)
  qed
qed























section \<open>Properties of the fleet aggregation\<close>

lemma fold_fadd_exact:
  "\<bar>a\<bar> + (\<Sum>x\<leftarrow>xs. \<bar>x\<bar>) \<le> 2 ^ 53 \<Longrightarrow>
   fold (\<lambda>x acc. fadd acc (round64 (of_int x))) xs (Finite (of_int a)) =
     Finite (of_int (a + sum_list xs))"
proof (induction xs arbitrary: a)
  case Nil
  then show ?case by simp
next
  case (Cons x xs)
  have x: "\<bar>x\<bar> \<le> 2 ^ 53" and ax: "\<bar>a + x\<bar> \<le> 2 ^ 53"
    and rest: "\<bar>a + x\<bar> + (\<Sum>x\<leftarrow>xs. \<bar>x\<bar>) \<le> 2 ^ 53"
  proof -
    have "0 \<le> (\<Sum>x\<leftarrow>xs. \<bar>x\<bar>)" by (rule sum_list_nonneg) auto
    with Cons.prems show "\<bar>x\<bar> \<le> 2 ^ 53" and "\<bar>a + x\<bar> \<le> 2 ^ 53"
      and "\<bar>a + x\<bar> + (\<Sum>x\<leftarrow>xs. \<bar>x\<bar>) \<le> 2 ^ 53"
      by simp_all
  qed
  have "fadd (Finite (of_int a)) (round64 (of_int x)) = round64 (of_int (a + x))"
    using x by (simp add: round64_of_int)
  also have "\<dots> = Finite (of_int (a + x))"
    using ax by (rule round64_of_int)
  finally have step: "fadd (Finite (of_int a)) (round64 (of_int x)) = Finite (of_int (a + x))" .
  show ?case
    using Cons.IH [OF rest] by (simp add: step add.assoc)
qed

lemma series_sum_exact:
  assumes "(\<Sum>x\<leftarrow>xs. \<bar>x\<bar>) \<le> 2 ^ 53"
  shows "series_sum xs = Finite (of_int (sum_list xs))"
  using fold_fadd_exact [of 0 xs] assms by (simp add: series_sum_def)

lemma series_mean_rounded:
  assumes "xs \<noteq> []" and "(\<Sum>x\<leftarrow>xs. \<bar>x\<bar>) \<le> 2 ^ 53" and "length xs \<le> 2 ^ 53"
  shows "series_mean xs = round64 (real_of_int (sum_list xs) / real (length xs))"
proof -
  have "\<bar>int (length xs)\<bar> \<le> 2 ^ 53" using assms(3) by simp
  then have "round64 (of_int (int (length xs))) = Finite (of_int (int (length xs)))"
    by (rule round64_of_int)
  then have n: "round64 (real (length xs)) = Finite (real (length xs))" by simp
  show ?thesis
    using assms(1) by (simp add: series_mean_def series_sum_exact [OF assms(2)] n)
qed


lemma round64_31_3: "round64 (31 / 3) = Finite (5817149518686891 / 2 ^ 49)"
proof -
  have "round64 (31 / 3) =
        Finite (of_int (round_half_even ((31 / 3) / 2 powi (3 - 52))) * 2 powi (3 - 52))"
    by (rule round64_normal) (simp_all add: power_int_minus)
  also have "((31 / 3) / 2 powi (3 - 52) :: real) = 17451448556060672 / 3"
    by (simp add: power_int_minus)
  also have "round_half_even (17451448556060672 / 3) = 5817149518686891"
    by (simp add: round_half_even_def Let_def)
  finally show ?thesis by (simp add: power_int_minus)
qed

lemma round64_55_2: "round64 (55 / 2) = Finite (55 / 2)"
proof -
  have "round64 (55 / 2) =
        Finite (of_int (round_half_even ((55 / 2) / 2 powi (4 - 52))) * 2 powi (4 - 52))"
    by (rule round64_normal) (simp_all add: power_int_minus)
  also have "((55 / 2) / 2 powi (4 - 52) :: real) = of_int 7740561859543040"
    by (simp add: power_int_minus)
  also have "round_half_even (of_int 7740561859543040) = 7740561859543040"
    by (rule round_half_even_of_int)
  finally show ?thesis by (simp add: power_int_minus)
qed


lemma mean_10_10_11: "series_mean [10, 10, 11] = Finite (5817149518686891 / 2 ^ 49)"
  using round64_31_3 by (simp add: series_mean_rounded)

lemma mean_10_30_50: "series_mean [10, 30, 50] = Finite 30"
  using round64_of_int [of 30] by (simp add: series_mean_rounded)

lemma mean_40_15: "series_mean [40, 15] = Finite (55 / 2)"
  using round64_55_2 by (simp add: series_mean_rounded)

lemma series_mean_error:
  assumes "xs \<noteq> []" and "(\<Sum>x\<leftarrow>xs. \<bar>x\<bar>) \<le> 2 ^ 53" and "length xs \<le> 2 ^ 53"
  shows "\<exists>y. series_mean xs = Finite y \<and>
     \<bar>y - real_of_int (sum_list xs) / real (length xs)\<bar> \<le>
       \<bar>real_of_int (sum_list xs) / real (length xs)\<bar> / 2 ^ 53"
proof -
  let ?s = "real_of_int (sum_list xs)"
  let ?n = "real (length xs)"
  have r: "series_mean xs = round64 (?s / ?n)"
    using assms by (rule series_mean_rounded)
  have n1: "1 \<le> ?n" using assms(1) by (cases xs) simp_all
  have n53: "?n \<le> 2 ^ 53"
  proof -
    have "real (length xs) \<le> real (2 ^ 53)" using assms(3) by (simp only: of_nat_le_iff)
    then show ?thesis by simp
  qed
  show ?thesis
  proof (cases "sum_list xs = 0")
    case True
    then show ?thesis by (simp add: r round64_def)
  next
    case False
    then have s1: "1 \<le> \<bar>?s\<bar>"
      by (metis int_one_le_iff_zero_less of_int_1_le_iff of_int_abs zero_less_abs_iff)
    have "\<bar>sum_list xs\<bar> \<le> (\<Sum>x\<leftarrow>xs. \<bar>x\<bar>)" by (rule sum_list_abs)
    with assms(2) have "\<bar>sum_list xs\<bar> \<le> 2 ^ 53" by linarith
    then have s53: "\<bar>?s\<bar> \<le> 2 ^ 53"
      by (metis of_int_abs of_int_le_iff of_int_numeral of_int_power)
    have abs: "\<bar>?s / ?n\<bar> = \<bar>?s\<bar> / ?n" using n1 by simp
    have "1 / 2 ^ 53 \<le> \<bar>?s\<bar> / ?n"
      using s1 n1 n53 assms(1) by (intro frac_le) simp_all
    moreover have "(2::real) powi (- 1022) \<le> 1 / 2 ^ 53"
      by (simp add: power_int_minus field_simps)
    ultimately have lo: "2 powi (- 1022) \<le> \<bar>?s / ?n\<bar>" using abs by linarith
    have "\<bar>?s\<bar> / ?n \<le> \<bar>?s\<bar> / 1" using n1 by (intro frac_le) simp_all
    then have "\<bar>?s\<bar> / ?n \<le> \<bar>?s\<bar>" by simp
    with s53 have "\<bar>?s\<bar> / ?n \<le> 2 ^ 53" by linarith
    moreover have "(2::real) ^ 53 < 2 powi 1023" by simp
    ultimately have hi: "\<bar>?s / ?n\<bar> < 2 powi 1023" using abs by linarith
    from round64_error [OF lo hi] r show ?thesis by simp
  qed
qed

lemma mask_filter: "map fst (filter snd (zip rs (map P rs))) = filter P rs"
  by (induction rs) simp_all

lemma filter_by_index:
  "filter P rs = map (\<lambda>i. rs ! i) (filter (\<lambda>i. P (rs ! i)) [0..<length rs])"
proof -
  have "filter P rs = filter P (map (\<lambda>i. rs ! i) [0..<length rs])"
    by (simp add: map_nth)
  also have "\<dots> = map (\<lambda>i. rs ! i) (filter (\<lambda>i. P (rs ! i)) [0..<length rs])"
    by (simp add: filter_map comp_def)
  finally show ?thesis .
qed

lemma continuous_improvement_Frame:
  "continuous_improvement (Frame rs) =
     Inr \<lparr>printed_average = series_mean (map battery_level rs),
          printed_low_battery = map ev_id (filter (\<lambda>r. battery_level r < 20) rs),
          printed_suggestion =
            (if filter (\<lambda>r. battery_level r < 20) rs \<noteq> []
             then Some ''Suggestion: Increase charging frequency for low battery EVs.''
             else None)\<rparr>"
  by (simp add: continuous_improvement_def series_lt_def mask_filter comp_def)

lemma continuous_improvement_NoColumns:
  "continuous_improvement NoColumns = Inl (KeyError ''battery_level'')"
  by (simp add: continuous_improvement_def)

lemma continuous_improvement_fails_iff:
  "continuous_improvement df = Inl e \<longleftrightarrow> df = NoColumns \<and> e = KeyError ''battery_level''"
  by (cases df) (auto simp: continuous_improvement_Frame continuous_improvement_NoColumns)

text \<open>
  C1, as the code has it: no call on an empty batch fails with an error for the empty
  batch. On a frame that has the columns and no rows the call returns: the average shown
  is NaN, the low-battery list is empty and no suggestion is printed. On the frame without
  columns, which is what \<^verbatim>\<open>pd.DataFrame\<close> makes of an empty list of snapshots, the
  lookup of the column \<^verbatim>\<open>battery_level\<close> raises \<^verbatim>\<open>KeyError\<close>.
\<close>

theorem empty_batch_result:
  "continuous_improvement (Frame []) =
     Inr \<lparr>printed_average = NaN, printed_low_battery = [], printed_suggestion = None\<rparr> \<and>
   continuous_improvement (pd_DataFrame []) = Inl (KeyError ''battery_level'')"
  by (simp add: continuous_improvement_Frame continuous_improvement_NoColumns
      series_mean_def pd_DataFrame_def)

text \<open>
  The input at which C1 fails as written: the frame with columns and no rows is an empty
  batch, and the call on it does not fail; it returns a report whose average is NaN.
\<close>

theorem empty_batch_counterexample:
  "\<not> isl (continuous_improvement (Frame [])) \<and>
   printed_average (projr (continuous_improvement (Frame []))) = NaN"
  by (simp add: continuous_improvement_Frame series_mean_def)

text \<open>
  C7, as the code has it: on a batch of at least one and at most \<open>2 ^ 53\<close> snapshots
  whose battery levels add up, in absolute value, to at most \<open>2 ^ 53\<close>, the average
  shown is the arithmetic mean of the battery levels rounded to the nearest float; it
  differs from the arithmetic mean by at most that mean over \<open>2 ^ 53\<close>. On the batch with
  battery levels 10, 30 and 50 the average is exactly 30.0 and the low-battery list holds
  exactly the vehicle whose level is 10.
\<close>

theorem mean_battery_level:
  "(rows \<noteq> [] \<and> (\<Sum>r\<leftarrow>rows. \<bar>battery_level r\<bar>) \<le> 2 ^ 53 \<and> length rows \<le> 2 ^ 53 \<longrightarrow>
      (\<exists>rep y. continuous_improvement (Frame rows) = Inr rep \<and>
         printed_average rep =
           round64 (real_of_int (\<Sum>r\<leftarrow>rows. battery_level r) / real (length rows)) \<and>
         printed_average rep = Finite y \<and>
         \<bar>y - real_of_int (\<Sum>r\<leftarrow>rows. battery_level r) / real (length rows)\<bar> \<le>
           \<bar>real_of_int (\<Sum>r\<leftarrow>rows. battery_level r) / real (length rows)\<bar> / 2 ^ 53)) \<and>
   (\<exists>rep. continuous_improvement
             (pd_DataFrame [snapshot 101 10 0, snapshot 102 30 0, snapshot 103 50 0]) = Inr rep \<and>
      printed_average rep = Finite 30 \<and> printed_low_battery rep = [IdInt 101])"
proof -
  have general: "\<exists>rep y. continuous_improvement (Frame rows) = Inr rep \<and>
         printed_average rep =
           round64 (real_of_int (\<Sum>r\<leftarrow>rows. battery_level r) / real (length rows)) \<and>
         printed_average rep = Finite y \<and>
         \<bar>y - real_of_int (\<Sum>r\<leftarrow>rows. battery_level r) / real (length rows)\<bar> \<le>
           \<bar>real_of_int (\<Sum>r\<leftarrow>rows. battery_level r) / real (length rows)\<bar> / 2 ^ 53"
    if ne: "rows \<noteq> []" and sm: "(\<Sum>r\<leftarrow>rows. \<bar>battery_level r\<bar>) \<le> 2 ^ 53"
      and ln: "length rows \<le> 2 ^ 53"
  proof -
    let ?xs = "map battery_level rows"
    have xs: "?xs \<noteq> []" using ne by simp
    have sm': "(\<Sum>x\<leftarrow>?xs. \<bar>x\<bar>) \<le> 2 ^ 53" using sm by (simp add: comp_def)
    have ln': "length ?xs \<le> 2 ^ 53" using ln by simp
    from series_mean_rounded [OF xs sm' ln']
    have r: "series_mean ?xs =
        round64 (real_of_int (\<Sum>r\<leftarrow>rows. battery_level r) / real (length rows))"
      by simp
    from series_mean_error [OF xs sm' ln']
    obtain y where y: "series_mean ?xs = Finite y"
      and err: "\<bar>y - real_of_int (\<Sum>r\<leftarrow>rows. battery_level r) / real (length rows)\<bar> \<le>
           \<bar>real_of_int (\<Sum>r\<leftarrow>rows. battery_level r) / real (length rows)\<bar> / 2 ^ 53"
      by auto
    obtain rep where rep: "continuous_improvement (Frame rows) = Inr rep"
      and avg: "printed_average rep = series_mean ?xs"
      by (simp add: continuous_improvement_Frame)
    from avg r have 1: "printed_average rep =
        round64 (real_of_int (\<Sum>r\<leftarrow>rows. battery_level r) / real (length rows))"
      by (simp only:)
    from avg y have 2: "printed_average rep = Finite y" by (simp only:)
    from rep 1 2 err show ?thesis by blast
  qed
  have sample: "\<exists>rep. continuous_improvement
             (pd_DataFrame [snapshot 101 10 0, snapshot 102 30 0, snapshot 103 50 0]) = Inr rep \<and>
      printed_average rep = Finite 30 \<and> printed_low_battery rep = [IdInt 101]"
    using mean_10_30_50
    by (simp add: pd_DataFrame_def continuous_improvement_Frame snapshot_def)
  from general sample show ?thesis by blast
qed

theorem mean_battery_level_witness:
  "[snapshot 1 40 0, snapshot 2 15 0] \<noteq> [] \<and>
   (\<Sum>r\<leftarrow>[snapshot 1 40 0, snapshot 2 15 0]. \<bar>battery_level r\<bar>) \<le> 2 ^ 53 \<and>
   length [snapshot 1 40 0, snapshot 2 15 0] \<le> 2 ^ 53 \<and>
   (\<exists>rep. continuous_improvement (Frame [snapshot 1 40 0, snapshot 2 15 0]) = Inr rep \<and>
      printed_average rep = Finite (55 / 2))"
  using mean_battery_level [of "[snapshot 1 40 0, snapshot 2 15 0]"] round64_55_2
  by (auto simp: snapshot_def)

text \<open>
  The input at which C7 fails as written: for the battery levels 10, 10 and 11 the
  arithmetic mean is 31 / 3, which is no float, and the average shown is the float next to
  it, 10.333333333333334.
\<close>

theorem mean_battery_level_counterexample:
  "\<not> isl (continuous_improvement (Frame [snapshot 1 10 0, snapshot 2 10 0, snapshot 3 11 0])) \<and>
   printed_average
     (projr (continuous_improvement (Frame [snapshot 1 10 0, snapshot 2 10 0, snapshot 3 11 0]))) =
     Finite (5817149518686891 / 2 ^ 49) \<and>
   printed_average
     (projr (continuous_improvement (Frame [snapshot 1 10 0, snapshot 2 10 0, snapshot 3 11 0]))) \<noteq>
     Finite (real_of_int (10 + 10 + 11) / 3)"
  using mean_10_10_11
  by (simp add: continuous_improvement_Frame snapshot_def)

text \<open>
  C8: on a batch with at least one snapshot the low-battery list is the identifiers of
  exactly the snapshots whose battery level is below 20, in the order of the batch: it
  lists the rows at the ascending positions whose battery level is below 20.
\<close>

theorem low_battery_order:
  "rows \<noteq> [] \<Longrightarrow>
   \<exists>rep. continuous_improvement (Frame rows) = Inr rep \<and>
     printed_low_battery rep = map ev_id (filter (\<lambda>r. battery_level r < 20) rows) \<and>
     printed_low_battery rep =
       map (\<lambda>i. ev_id (rows ! i)) (filter (\<lambda>i. battery_level (rows ! i) < 20) [0..<length rows])"
proof -
  have "map ev_id (filter (\<lambda>r. battery_level r < 20) rows) =
        map (\<lambda>i. ev_id (rows ! i)) (filter (\<lambda>i. battery_level (rows ! i) < 20) [0..<length rows])"
    by (subst filter_by_index) simp
  then show ?thesis
    by (simp add: continuous_improvement_Frame)
qed

theorem low_battery_order_witness:
  "[snapshot 3 5 0, snapshot 1 40 0, snapshot 2 15 0] \<noteq> [] \<and>
   (\<exists>rep. continuous_improvement (Frame [snapshot 3 5 0, snapshot 1 40 0, snapshot 2 15 0]) = Inr rep \<and>
      printed_low_battery rep = [IdInt 3, IdInt 2])"
  using low_battery_order [of "[snapshot 3 5 0, snapshot 1 40 0, snapshot 2 15 0]"]
  by (simp add: snapshot_def)

text \<open>
  C9: on a batch with at least one snapshot the suggestion line is printed if and only if
  the low-battery list is not empty.
\<close>

theorem suggestion_iff_low_battery:
  "rows \<noteq> [] \<Longrightarrow>
   \<exists>rep. continuous_improvement (Frame rows) = Inr rep \<and>
     (printed_suggestion rep \<noteq> None \<longleftrightarrow> printed_low_battery rep \<noteq> [])"
  by (simp add: continuous_improvement_Frame)

theorem suggestion_iff_low_battery_witness:
  "[snapshot 1 40 0] \<noteq> [] \<and>
   (\<exists>rep. continuous_improvement (Frame [snapshot 1 40 0]) = Inr rep \<and>
      printed_suggestion rep = None \<and> printed_low_battery rep = []) \<and>
   [snapshot 2 15 0] \<noteq> [] \<and>
   (\<exists>rep. continuous_improvement (Frame [snapshot 2 15 0]) = Inr rep \<and>
      printed_suggestion rep \<noteq> None \<and> printed_low_battery rep \<noteq> [])"
  using suggestion_iff_low_battery [of "[snapshot 1 40 0]"]
    suggestion_iff_low_battery [of "[snapshot 2 15 0]"]
  by (simp add: snapshot_def continuous_improvement_Frame)

end
